theory Spec2Isabelle
  imports Complex_Main "HOL-Library.Word"
begin

unbundle bit_operations_syntax

section \<open>The graphics library as the program sees it\<close>

text \<open>
  \<^verbatim>\<open>main.cpp\<close> consists of two functions, \<^verbatim>\<open>display\<close> and \<^verbatim>\<open>main\<close>, and both are
  straight sequences of calls into GLFW, GLUT and OpenGL. The libraries are not part of the
  repository, so this section fixes the small part of their documented behaviour that the
  two functions depend on; the functions themselves follow in the next sections, line by
  line.

  Coordinates and colour components are \<^verbatim>\<open>GLfloat\<close> in the source. The program only ever
  passes the literals \<^verbatim>\<open>0.0f\<close>, \<^verbatim>\<open>1.0f\<close> and \<^verbatim>\<open>-1.0f\<close>, which are exact, and does
  no arithmetic on them, so they are rationals here.
\<close>

type_synonym color = "rat \<times> rat \<times> rat"
type_synonym point = "rat \<times> rat"
type_synonym colored_vertex = "point \<times> color"

text \<open>The primitive kinds of \<^verbatim>\<open>glBegin\<close> that the model assembles and fills.\<close>

datatype prim = GL_TRIANGLES | GL_QUADS

datatype gl_error = GL_NO_ERROR | GL_INVALID_OPERATION

text \<open>A drawing command that has been issued and waits to be executed.\<close>

datatype command = Clear color | Fill "colored_vertex list"

text \<open>
  The part of the state of an OpenGL context that \<^verbatim>\<open>display\<close> reads or writes: the clear
  colour (set by \<^verbatim>\<open>glClearColor\<close>, which the program never calls), the current colour, the
  primitive being specified between \<^verbatim>\<open>glBegin\<close> and \<^verbatim>\<open>glEnd\<close> with the vertices given so
  far, the commands not yet executed, the colour buffer (row-major, \<open>fb_w\<close> by \<open>fb_h\<close>
  pixels) and the sticky error flag. The transformation matrices and the viewport are not
  fields: the program never changes them, so a vertex position is a position in normalized
  device coordinates and the viewport is the whole buffer.
\<close>

record gl_state =
  clear_color :: color
  current_color :: color
  mode :: "prim option"
  verts :: "colored_vertex list"
  queue :: "command list"
  fb_w :: nat
  fb_h :: nat
  pixels :: "color list"
  gl_err :: gl_error

definition GL_COLOR_BUFFER_BIT :: "32 word" where
  "GL_COLOR_BUFFER_BIT = 0x4000"

definition raise_error :: "gl_error \<Rightarrow> gl_state \<Rightarrow> gl_state" where
  "raise_error e g = (if gl_err g = GL_NO_ERROR then g\<lparr>gl_err := e\<rparr> else g)"

subsection \<open>Rasterization\<close>

text \<open>The centre of pixel number \<open>i\<close> of a \<open>w\<close> by \<open>h\<close> buffer, in normalized device coordinates.\<close>

definition pixel_center :: "nat \<Rightarrow> nat \<Rightarrow> nat \<Rightarrow> point" where
  "pixel_center w h i =
     ((2 * of_nat (i mod w) + 1) / of_nat w - 1, (2 * of_nat (i div w) + 1) / of_nat h - 1)"

definition cross :: "point \<Rightarrow> point \<Rightarrow> point \<Rightarrow> rat" where
  "cross a b p = (fst b - fst a) * (snd p - snd a) - (snd b - snd a) * (fst p - fst a)"

definition edges :: "point list \<Rightarrow> (point \<times> point) list" where
  "edges ps = zip ps (rotate1 ps)"

text \<open>A point is covered by a convex polygon when it lies on the same side of every edge.\<close>

definition covers :: "point list \<Rightarrow> point \<Rightarrow> bool" where
  "covers ps p =
     (list_all (\<lambda>(a, b). 0 \<le> cross a b p) (edges ps) \<or>
      list_all (\<lambda>(a, b). cross a b p \<le> 0) (edges ps))"

text \<open>
  The colour of a fragment of a polygon. Interpolation between different vertex colours is
  not modelled: the fragment takes the colour of the last vertex, which is the colour of
  every vertex when they agree.
\<close>

definition shade :: "colored_vertex list \<Rightarrow> color" where
  "shade vs = snd (last vs)"

fun exec :: "command \<Rightarrow> gl_state \<Rightarrow> gl_state" where
  "exec (Clear c) g = g\<lparr>pixels := replicate (fb_w g * fb_h g) c\<rparr>"
| "exec (Fill vs) g =
     g\<lparr>pixels :=
         map (\<lambda>(i, old). if covers (map fst vs) (pixel_center (fb_w g) (fb_h g) i)
                          then shade vs else old)
           (enumerate 0 (pixels g))\<rparr>"

text \<open>Primitive assembly: \<open>n\<close> vertices make one polygon, a trailing incomplete group is dropped.\<close>

fun arity :: "prim \<Rightarrow> nat" where
  "arity GL_TRIANGLES = 3"
| "arity GL_QUADS = 4"

fun assemble :: "nat \<Rightarrow> colored_vertex list \<Rightarrow> colored_vertex list list" where
  "assemble n vs =
     (if n = 0 \<or> length vs < n then [] else take n vs # assemble n (drop n vs))"

subsection \<open>The OpenGL calls of \<^verbatim>\<open>display\<close>, on the context state\<close>

definition clear_buffers :: "32 word \<Rightarrow> gl_state \<Rightarrow> gl_state" where
  "clear_buffers bits g =
     (if mode g \<noteq> None then raise_error GL_INVALID_OPERATION g
      else if bits AND GL_COLOR_BUFFER_BIT \<noteq> 0
        then g\<lparr>queue := queue g @ [Clear (clear_color g)]\<rparr>
      else g)"

definition begin_prim :: "prim \<Rightarrow> gl_state \<Rightarrow> gl_state" where
  "begin_prim m g =
     (if mode g \<noteq> None then raise_error GL_INVALID_OPERATION g
      else g\<lparr>mode := Some m, verts := []\<rparr>)"

definition set_color :: "rat \<Rightarrow> rat \<Rightarrow> rat \<Rightarrow> gl_state \<Rightarrow> gl_state" where
  "set_color r gr b g = g\<lparr>current_color := (r, gr, b)\<rparr>"

text \<open>Outside \<^verbatim>\<open>glBegin\<close>/\<^verbatim>\<open>glEnd\<close> a vertex has no defined effect; the model ignores it.\<close>

definition add_vertex :: "rat \<Rightarrow> rat \<Rightarrow> gl_state \<Rightarrow> gl_state" where
  "add_vertex x y g =
     (if mode g = None then g else g\<lparr>verts := verts g @ [((x, y), current_color g)]\<rparr>)"

definition end_prim :: "gl_state \<Rightarrow> gl_state" where
  "end_prim g =
     (case mode g of
        None \<Rightarrow> raise_error GL_INVALID_OPERATION g
      | Some m \<Rightarrow>
          g\<lparr>mode := None, verts := [],
            queue := queue g @ map Fill (assemble (arity m) (verts g))\<rparr>)"

text \<open>\<^verbatim>\<open>glFlush\<close>: the commands issued so far are executed, in order.\<close>

definition flush :: "gl_state \<Rightarrow> gl_state" where
  "flush g =
     (if mode g \<noteq> None then raise_error GL_INVALID_OPERATION g
      else (fold exec (queue g) g)\<lparr>queue := []\<rparr>)"

section \<open>The process and its surroundings\<close>

text \<open>
  A \<^verbatim>\<open>GLFWwindow*\<close> is an address; \<^verbatim>\<open>nullptr\<close> is address 0. The only function whose
  address the program takes is \<^verbatim>\<open>display\<close>.
\<close>

type_synonym ptr = nat

definition nullptr :: ptr where
  "nullptr = 0"

datatype callback = Display

text \<open>Every call that leaves the program, with its arguments, in the order it is made.\<close>

datatype call =
    GlfwInit
  | GlfwCreateWindow int int string ptr ptr
  | GlfwTerminate
  | GlfwMakeContextCurrent ptr
  | GlfwSwapInterval int
  | GlutDisplayFunc callback
  | GlfwWindowShouldClose ptr
  | GlfwSwapBuffers ptr
  | GlfwPollEvents
  | GlfwDestroyWindow ptr
  | Cerr string
  | GlClear "32 word"
  | GlBegin prim
  | GlColor3f rat rat rat
  | GlVertex2f rat rat
  | GlEnd
  | GlFlush

text \<open>
  A window as the program knows it: the width, height and title it was created with, and
  its close flag. What the window system does to a window on the user's behalf, other than
  raising the close flag, is not part of the state.
\<close>

record window =
  width :: int
  height :: int
  title :: string
  should_close :: bool

text \<open>
  What the program cannot decide: whether the windowing subsystem starts, which handle the
  request for a window yields (\<open>nullptr\<close> when it is refused), at which polls of the event
  queue (counted from 0) a close request of the user arrives, and the state in which the
  graphics context starts.
\<close>

record env =
  init_ok :: bool
  window_ptr :: ptr
  close_request :: "nat \<Rightarrow> bool"
  context0 :: gl_state

text \<open>
  The state of the process and of the libraries it talks to: the calls made so far, the
  text written to standard error, whether GLFW is initialized, whether GLUT is initialized
  (by \<^verbatim>\<open>glutInit\<close>, which the program never calls), the windows that exist (by
  handle), the window whose context is current, the swap interval requested (\<open>None\<close>: the
  platform's default), the display callback registered with GLUT, the number of polls of
  the event queue so far, and the state of the graphics context.
\<close>

record world =
  calls :: "call list"
  stderr :: string
  glfw_up :: bool
  glut_up :: bool
  windows :: "ptr \<rightharpoonup> window"
  current :: ptr
  swap_interval :: "int option"
  display_func :: "callback option"
  polled :: nat
  gl :: gl_state

definition world0 :: "env \<Rightarrow> world" where
  "world0 env =
     \<lparr>calls = [], stderr = [], glfw_up = False, glut_up = False, windows = Map.empty,
      current = nullptr,
      swap_interval = None, display_func = None, polled = 0, gl = context0 env\<rparr>"

definition record_call :: "call \<Rightarrow> world \<Rightarrow> world" where
  "record_call c w = w\<lparr>calls := calls w @ [c]\<rparr>"

subsection \<open>Standard error\<close>

text \<open>\<^verbatim>\<open>std::cerr << s\<close> and \<^verbatim>\<open>std::cerr << std::endl\<close>.\<close>

definition cerr :: "string \<Rightarrow> world \<Rightarrow> world" where
  "cerr s w = record_call (Cerr s) (w\<lparr>stderr := stderr w @ s\<rparr>)"

definition endl :: "world \<Rightarrow> world" where
  "endl w = cerr [CHR 0x0A] w"

subsection \<open>GLFW and GLUT\<close>

text \<open>
  The GLFW calls return to their caller; where GLFW refuses a request it says so in the
  value it returns, or does nothing. A call that ends the process instead of returning
  gives the exit status next to the state: \<open>(Some status, w)\<close> when the process has ended
  inside the call, \<open>(None, w)\<close> when the call has returned.
\<close>

definition glfwInit :: "env \<Rightarrow> world \<Rightarrow> bool \<times> world" where
  "glfwInit env w =
     (init_ok env, record_call GlfwInit (if init_ok env then w\<lparr>glfw_up := True\<rparr> else w))"

text \<open>A new window has the size and the title asked for, and its close flag is clear.\<close>

definition glfwCreateWindow ::
  "env \<Rightarrow> int \<Rightarrow> int \<Rightarrow> string \<Rightarrow> ptr \<Rightarrow> ptr \<Rightarrow> world \<Rightarrow> ptr \<times> world" where
  "glfwCreateWindow env wd ht ttl monitor share w =
     (let w' = record_call (GlfwCreateWindow wd ht ttl monitor share) w in
      if \<not> glfw_up w \<or> window_ptr env = nullptr then (nullptr, w')
      else (window_ptr env,
            w'\<lparr>windows := (windows w)(window_ptr env \<mapsto>
                  \<lparr>width = wd, height = ht, title = ttl, should_close = False\<rparr>)\<rparr>))"

text \<open>\<^verbatim>\<open>glfwTerminate\<close> destroys the windows that are left and shuts the subsystem down.\<close>

definition glfwTerminate :: "world \<Rightarrow> world" where
  "glfwTerminate w =
     record_call GlfwTerminate
       (if glfw_up w then w\<lparr>glfw_up := False, windows := Map.empty, current := nullptr\<rparr>
        else w)"

definition glfwDestroyWindow :: "ptr \<Rightarrow> world \<Rightarrow> world" where
  "glfwDestroyWindow window w =
     record_call (GlfwDestroyWindow window)
       (w\<lparr>windows := (windows w)(window := None),
          current := (if current w = window then nullptr else current w)\<rparr>)"

definition glfwMakeContextCurrent :: "ptr \<Rightarrow> world \<Rightarrow> world" where
  "glfwMakeContextCurrent window w =
     record_call (GlfwMakeContextCurrent window)
       (if window = nullptr \<or> windows w window \<noteq> None then w\<lparr>current := window\<rparr> else w)"

definition glfwSwapInterval :: "int \<Rightarrow> world \<Rightarrow> world" where
  "glfwSwapInterval interval w =
     record_call (GlfwSwapInterval interval)
       (if current w = nullptr then w else w\<lparr>swap_interval := Some interval\<rparr>)"

text \<open>
  \<^verbatim>\<open>main.cpp\<close> includes \<^verbatim>\<open>GL/freeglut.h\<close>. Every freeglut entry point first checks that
  \<^verbatim>\<open>glutInit\<close> has been called; when it has not, freeglut writes a diagnostic that names the
  function to standard error and ends the process with \<^verbatim>\<open>exit(1)\<close>. No clean-up handler is
  registered by the program or by GLFW, so the process ends with the state as it is.
\<close>

definition glut_not_initialised :: "string \<Rightarrow> string" where
  "glut_not_initialised fn =
     ''freeglut  ERROR:  Function <'' @ fn @ ''> called without first calling '' @
     [CHR 0x27] @ ''glutInit'' @ [CHR 0x27] @ ''.'' @ [CHR 0x0A]"

definition glutDisplayFunc :: "callback \<Rightarrow> world \<Rightarrow> int option \<times> world" where
  "glutDisplayFunc f w =
     (let w = record_call (GlutDisplayFunc f) w in
      if \<not> glut_up w
        then (Some 1, w\<lparr>stderr := stderr w @ glut_not_initialised ''glutDisplayFunc''\<rparr>)
      else (None, w\<lparr>display_func := Some f\<rparr>))"

definition glfwWindowShouldClose :: "ptr \<Rightarrow> world \<Rightarrow> bool \<times> world" where
  "glfwWindowShouldClose window w =
     ((case windows w window of None \<Rightarrow> False | Some win \<Rightarrow> should_close win),
      record_call (GlfwWindowShouldClose window) w)"

text \<open>
  Which of the two colour buffers is on screen is not part of the state; the call is
  recorded.
\<close>

definition glfwSwapBuffers :: "ptr \<Rightarrow> world \<Rightarrow> world" where
  "glfwSwapBuffers window w = record_call (GlfwSwapBuffers window) w"

text \<open>
  \<^verbatim>\<open>glfwPollEvents\<close> handles the events that are queued and returns. A close request sets
  the close flag of the window; GLFW dispatches no GLUT callback.
\<close>

definition glfwPollEvents :: "env \<Rightarrow> world \<Rightarrow> world" where
  "glfwPollEvents env w =
     record_call GlfwPollEvents
       (w\<lparr>polled := Suc (polled w),
          windows := (if close_request env (polled w)
                      then map_option (\<lambda>win. win\<lparr>should_close := True\<rparr>) \<circ> windows w
                      else windows w)\<rparr>)"

subsection \<open>OpenGL\<close>

definition glClear :: "32 word \<Rightarrow> world \<Rightarrow> world" where
  "glClear bits w = record_call (GlClear bits) (w\<lparr>gl := clear_buffers bits (gl w)\<rparr>)"

definition glBegin :: "prim \<Rightarrow> world \<Rightarrow> world" where
  "glBegin m w = record_call (GlBegin m) (w\<lparr>gl := begin_prim m (gl w)\<rparr>)"

definition glColor3f :: "rat \<Rightarrow> rat \<Rightarrow> rat \<Rightarrow> world \<Rightarrow> world" where
  "glColor3f r g b w = record_call (GlColor3f r g b) (w\<lparr>gl := set_color r g b (gl w)\<rparr>)"

definition glVertex2f :: "rat \<Rightarrow> rat \<Rightarrow> world \<Rightarrow> world" where
  "glVertex2f x y w = record_call (GlVertex2f x y) (w\<lparr>gl := add_vertex x y (gl w)\<rparr>)"

definition glEnd :: "world \<Rightarrow> world" where
  "glEnd w = record_call GlEnd (w\<lparr>gl := end_prim (gl w)\<rparr>)"

definition glFlush :: "world \<Rightarrow> world" where
  "glFlush w = record_call GlFlush (w\<lparr>gl := flush (gl w)\<rparr>)"

section \<open>The program\<close>

text \<open>\<^verbatim>\<open>void display()\<close>, lines 5 to 18.\<close>

definition display :: "world \<Rightarrow> world" where
  "display w =
     (let w = glClear GL_COLOR_BUFFER_BIT w;
          w = glBegin GL_QUADS w;
          w = glColor3f 0 0 0 w;
          w = glVertex2f (-1) (-1) w;
          w = glVertex2f 1 (-1) w;
          w = glVertex2f 1 1 w;
          w = glVertex2f (-1) 1 w;
          w = glEnd w;
          w = glFlush w
      in w)"

text \<open>
  The loop of lines 40 to 43. It runs for as long as no close request arrives, so it is
  given a bound: \<open>run_loop n\<close> tests the condition at most \<open>n\<close> times and tells whether the
  loop was left (\<open>True\<close>) or is still running (\<open>False\<close>), with the state reached.
\<close>

definition loop_body :: "env \<Rightarrow> ptr \<Rightarrow> world \<Rightarrow> world" where
  "loop_body env window w =
     (let w = glfwSwapBuffers window w;
          w = glfwPollEvents env w
      in w)"

fun run_loop :: "nat \<Rightarrow> env \<Rightarrow> ptr \<Rightarrow> world \<Rightarrow> bool \<times> world" where
  "run_loop 0 env window w = (False, w)"
| "run_loop (Suc n) env window w =
     (let (closing, w) = glfwWindowShouldClose window w in
      if \<not> closing then run_loop n env window (loop_body env window w)
      else (True, w))"

text \<open>
  Lines 40 to 47 of \<^verbatim>\<open>main\<close>: the loop, the teardown and \<^verbatim>\<open>return 0\<close>. The result is the
  value returned (\<open>None\<close> while the loop is still running after \<open>n\<close> tests of its condition)
  and the state reached.
\<close>

definition main_from_loop :: "nat \<Rightarrow> env \<Rightarrow> ptr \<Rightarrow> world \<Rightarrow> int option \<times> world" where
  "main_from_loop n env window w =
     (let (left, w) = run_loop n env window w in
      if \<not> left then (None, w)
      else
        let w = glfwDestroyWindow window w;
            w = glfwTerminate w
        in (Some 0, w))"

text \<open>
  \<^verbatim>\<open>int main()\<close>, lines 20 to 48. The result is the status with which the process ends, by
  a \<^verbatim>\<open>return\<close> of \<^verbatim>\<open>main\<close> or by an \<^verbatim>\<open>exit\<close> inside a library call (\<open>None\<close> while the loop
  is still running), and the state reached.
\<close>

definition main :: "nat \<Rightarrow> env \<Rightarrow> int option \<times> world" where
  "main n env =
     (let (ok, w) = glfwInit env (world0 env) in
      if \<not> ok then
        (let w = cerr ''Failed to initialize GLFW'' w;
             w = endl w
         in (Some (- 1), w))
      else
        let (window, w) = glfwCreateWindow env 800 600 ''Chess Renderer'' nullptr nullptr w in
        if window = nullptr then
          (let w = glfwTerminate w;
               w = cerr ''Failed to create GLFW window'' w;
               w = endl w
           in (Some (- 1), w))
        else
          let w = glfwMakeContextCurrent window w;
              w = glfwSwapInterval 1 w;
              (ended, w) = glutDisplayFunc Display w
          in case ended of
               Some status \<Rightarrow> (Some status, w)
             | None \<Rightarrow> main_from_loop n env window w)"

section \<open>Notions for stating the properties\<close>

text \<open>
  The quadrilateral that lines 10 to 14 of \<^verbatim>\<open>display\<close> specify: the four corners of
  normalized device coordinates, each with the colour set in line 10.
\<close>

definition full_quad :: "colored_vertex list" where
  "full_quad = [((- 1, - 1), (0, 0, 0)), ((1, - 1), (0, 0, 0)), ((1, 1), (0, 0, 0)), ((- 1, 1), (0, 0, 0))]"

text \<open>
  A context as the platform hands it out: default clear colour and current colour, nothing
  pending, a buffer of \<open>w\<close> by \<open>h\<close> pixels.
\<close>

definition fresh_context :: "nat \<Rightarrow> nat \<Rightarrow> gl_state" where
  "fresh_context w h =
     \<lparr>clear_color = (0, 0, 0), current_color = (1, 1, 1), mode = None, verts = [], queue = [],
      fb_w = w, fb_h = h, pixels = replicate (w * h) (0, 0, 0), gl_err = GL_NO_ERROR\<rparr>"

text \<open>The calls of one pass through the loop: the test of line 40, then lines 41 and 42.\<close>

definition iteration :: "ptr \<Rightarrow> call list" where
  "iteration window = [GlfwWindowShouldClose window, GlfwSwapBuffers window, GlfwPollEvents]"

text \<open>What the test of line 40 would read in a state.\<close>

definition closing :: "ptr \<Rightarrow> world \<Rightarrow> bool" where
  "closing window w = fst (glfwWindowShouldClose window w)"

text \<open>The width, height and title of the window behind a handle, if there is one.\<close>

definition window_attrs :: "world \<Rightarrow> ptr \<Rightarrow> (int \<times> int \<times> string) option" where
  "window_attrs w p = map_option (\<lambda>win. (width win, height win, title win)) (windows w p)"

text \<open>
  The state in which \<^verbatim>\<open>main\<close> reaches line 38, after lines 22 to 37 have succeeded: the
  window exists with its close flag clear, and its context is current.
\<close>

definition ready :: "env \<Rightarrow> world" where
  "ready env =
     (world0 env)\<lparr>calls := [GlfwInit, GlfwCreateWindow 800 600 ''Chess Renderer'' nullptr nullptr,
                 GlfwMakeContextCurrent (window_ptr env), GlfwSwapInterval 1],
        glfw_up := True,
        windows := [window_ptr env \<mapsto>
          \<lparr>width = 800, height = 600, title = ''Chess Renderer'', should_close = False\<rparr>],
        current := window_ptr env,
        swap_interval := Some 1\<rparr>"

text \<open>Classes of calls: window creation, the OpenGL calls, acquiring and releasing.\<close>

fun creates_window :: "call \<Rightarrow> bool" where
  "creates_window (GlfwCreateWindow wd ht ttl monitor share) = True"
| "creates_window c = False"

fun gl_call :: "call \<Rightarrow> bool" where
  "gl_call (GlClear bits) = True"
| "gl_call (GlBegin m) = True"
| "gl_call (GlColor3f r g b) = True"
| "gl_call (GlVertex2f x y) = True"
| "gl_call GlEnd = True"
| "gl_call GlFlush = True"
| "gl_call c = False"

fun lifecycle :: "call \<Rightarrow> bool" where
  "lifecycle GlfwInit = True"
| "lifecycle (GlfwCreateWindow wd ht ttl monitor share) = True"
| "lifecycle (GlfwDestroyWindow window) = True"
| "lifecycle GlfwTerminate = True"
| "lifecycle c = False"

section \<open>What the draw routine does to the graphics context\<close>

lemma exec_fb_w: "fb_w (exec c g) = fb_w g"
  by (cases c) simp_all

lemma exec_fb_h: "fb_h (exec c g) = fb_h g"
  by (cases c) simp_all

lemma exec_frame: "exec c g = g\<lparr>pixels := pixels (exec c g)\<rparr>"
  by (cases c) simp_all

lemma fold_exec_dims:
  "fb_w (fold exec cs g) = fb_w g \<and> fb_h (fold exec cs g) = fb_h g"
  by (induction cs arbitrary: g) (simp_all add: exec_fb_w exec_fb_h)

lemma fold_exec_frame:
  "fold exec cs g = g\<lparr>pixels := pixels (fold exec cs g)\<rparr>"
proof (induction cs arbitrary: g)
  case Nil
  show ?case by simp
next
  case (Cons c cs)
  have "fold exec (c # cs) g = fold exec cs (exec c g)" by simp
  also have "\<dots> = (exec c g)\<lparr>pixels := pixels (fold exec cs (exec c g))\<rparr>"
    by (rule Cons.IH)
  also have "\<dots> = (g\<lparr>pixels := pixels (exec c g)\<rparr>)\<lparr>pixels := pixels (fold exec cs (exec c g))\<rparr>"
    using exec_frame [of c g] by simp
  finally show ?case by simp
qed

lemma center_in_range:
  assumes "i < w * h"
  shows "- 1 \<le> fst (pixel_center w h i)" "fst (pixel_center w h i) \<le> 1"
        "- 1 \<le> snd (pixel_center w h i)" "snd (pixel_center w h i) \<le> 1"
proof -
  from assms have w: "0 < w" and h: "0 < h" by (cases w; cases h; simp)+
  have x: "i mod w < w" using w by simp
  have y: "i div w < h" using assms w by (simp add: less_mult_imp_div_less mult.commute)
  have wr: "(0::rat) < of_nat w" and hr: "(0::rat) < of_nat h" using w h by simp_all
  show "- 1 \<le> fst (pixel_center w h i)" using wr by (simp add: pixel_center_def field_simps)
  show "- 1 \<le> snd (pixel_center w h i)" using hr by (simp add: pixel_center_def field_simps)
  have "2 * (i mod w) + 1 \<le> 2 * w" using x by simp
  then have "(of_nat (2 * (i mod w) + 1) :: rat) \<le> of_nat (2 * w)" by (simp only: of_nat_le_iff)
  then show "fst (pixel_center w h i) \<le> 1" using wr by (simp add: pixel_center_def field_simps)
  have "2 * (i div w) + 1 \<le> 2 * h" using y by simp
  then have "(of_nat (2 * (i div w) + 1) :: rat) \<le> of_nat (2 * h)" by (simp only: of_nat_le_iff)
  then show "snd (pixel_center w h i) \<le> 1" using hr by (simp add: pixel_center_def field_simps)
qed

lemma full_quad_covers:
  assumes "i < w * h"
  shows "covers (map fst full_quad) (pixel_center w h i)"
proof -
  obtain x y where p: "pixel_center w h i = (x, y)" by (cases "pixel_center w h i")
  from center_in_range [OF assms] p
  have "- 1 \<le> x" "x \<le> 1" "- 1 \<le> y" "y \<le> 1" by simp_all
  then show ?thesis
    by (simp add: p covers_def edges_def full_quad_def cross_def)
qed

lemma fill_full_quad:
  "pixels (exec (Fill full_quad) (exec (Clear c) g)) = replicate (fb_w g * fb_h g) (0, 0, 0)"
proof (rule nth_equalityI)
  show "length (pixels (exec (Fill full_quad) (exec (Clear c) g))) =
        length (replicate (fb_w g * fb_h g) (0::rat, 0::rat, 0::rat))"
    by simp
next
  fix i
  assume "i < length (pixels (exec (Fill full_quad) (exec (Clear c) g)))"
  then have i: "i < fb_w g * fb_h g" by simp
  then show "pixels (exec (Fill full_quad) (exec (Clear c) g)) ! i =
             replicate (fb_w g * fb_h g) (0, 0, 0) ! i"
    using full_quad_covers [OF i] by (simp add: nth_enumerate_eq shade_def) (simp add: full_quad_def)
qed

lemmas gl_call_defs =
  glClear_def glBegin_def glColor3f_def glVertex2f_def glEnd_def glFlush_def record_call_def

lemma color_bit: "GL_COLOR_BUFFER_BIT AND GL_COLOR_BUFFER_BIT \<noteq> 0"
  by (simp add: GL_COLOR_BUFFER_BIT_def)

lemma display_calls:
  "calls (display w) =
     calls w @ [GlClear GL_COLOR_BUFFER_BIT, GlBegin GL_QUADS, GlColor3f 0 0 0,
                GlVertex2f (- 1) (- 1), GlVertex2f 1 (- 1), GlVertex2f 1 1, GlVertex2f (- 1) 1,
                GlEnd, GlFlush]"
  by (simp add: display_def gl_call_defs)

lemma display_queue:
  assumes "mode (gl w) = None"
  shows "gl (glEnd (glVertex2f (- 1) 1 (glVertex2f 1 1 (glVertex2f 1 (- 1) (glVertex2f (- 1) (- 1)
           (glColor3f 0 0 0 (glBegin GL_QUADS (glClear GL_COLOR_BUFFER_BIT w)))))))) =
         (gl w)\<lparr>current_color := (0, 0, 0), mode := None, verts := [],
                 queue := queue (gl w) @ [Clear (clear_color (gl w)), Fill full_quad]\<rparr>"
  using assms color_bit
  by (simp add: gl_call_defs clear_buffers_def begin_prim_def set_color_def add_vertex_def
      end_prim_def full_quad_def)

lemma flush_clear_fill:
  assumes "mode g = None"
  shows "flush (g\<lparr>queue := qs @ [Clear c, Fill full_quad]\<rparr>) =
         g\<lparr>queue := [], pixels := replicate (fb_w g * fb_h g) (0, 0, 0)\<rparr>"
proof -
  let ?g = "g\<lparr>queue := qs @ [Clear c, Fill full_quad]\<rparr>"
  let ?h = "fold exec qs ?g"
  have dims: "fb_w ?h = fb_w g" "fb_h ?h = fb_h g"
    using fold_exec_dims [of qs ?g] by simp_all
  have h: "?h = ?g\<lparr>pixels := pixels ?h\<rparr>" by (rule fold_exec_frame)
  have "fold exec (qs @ [Clear c, Fill full_quad]) ?g = exec (Fill full_quad) (exec (Clear c) ?h)"
    by simp
  also have "\<dots> = (exec (Clear c) ?h)\<lparr>pixels := pixels (exec (Fill full_quad) (exec (Clear c) ?h))\<rparr>"
    by (rule exec_frame)
  also have "\<dots> = (exec (Clear c) ?h)\<lparr>pixels := replicate (fb_w g * fb_h g) (0, 0, 0)\<rparr>"
    by (simp only: fill_full_quad dims)
  also have "\<dots> = ?h\<lparr>pixels := replicate (fb_w g * fb_h g) (0, 0, 0)\<rparr>"
    by simp
  also have "\<dots> = ?g\<lparr>pixels := replicate (fb_w g * fb_h g) (0, 0, 0)\<rparr>"
    by (subst h) simp
  finally show ?thesis using assms by (simp add: flush_def)
qed

lemma display_gl:
  assumes "mode (gl w) = None"
  shows "gl (display w) =
         (gl w)\<lparr>current_color := (0, 0, 0), verts := [], queue := [],
                 pixels := replicate (fb_w (gl w) * fb_h (gl w)) (0, 0, 0)\<rparr>"
proof -
  let ?g = "(gl w)\<lparr>current_color := (0, 0, 0), mode := None, verts := []\<rparr>"
  have m: "mode ?g = None" by simp
  have "gl (display w) = flush (?g\<lparr>queue := queue (gl w) @ [Clear (clear_color (gl w)), Fill full_quad]\<rparr>)"
    unfolding display_def Let_def
    by (subst glFlush_def) (simp add: record_call_def display_queue [OF assms])
  also have "\<dots> = ?g\<lparr>queue := [], pixels := replicate (fb_w ?g * fb_h ?g) (0, 0, 0)\<rparr>"
    by (rule flush_clear_fill [OF m])
  finally show ?thesis using assms by simp
qed

lemma display_frame:
  "display w = w\<lparr>calls := calls (display w), gl := gl (display w)\<rparr>"
  by (simp add: display_def gl_call_defs)

lemma display_gl_again:
  assumes "mode (gl w) = None" "gl v = gl (display w)"
  shows "gl (display v) = gl (display w)"
proof -
  have m: "mode (gl v) = None" by (simp add: assms(2) display_gl [OF assms(1)] assms(1))
  show ?thesis by (simp add: display_gl [OF m] assms(2) display_gl [OF assms(1)])
qed

lemma display_n_gl:
  assumes "mode (gl w) = None"
  shows "gl ((display ^^ Suc n) w) = gl (display w)"
proof (induction n)
  case 0
  show ?case by simp
next
  case (Suc n)
  have "gl ((display ^^ Suc (Suc n)) w) = gl (display ((display ^^ Suc n) w))" by simp
  also have "\<dots> = gl (display w)" by (rule display_gl_again [OF assms Suc.IH])
  finally show ?case .
qed

lemma display_n_frame:
  "\<exists>cs g. (display ^^ n) w = w\<lparr>calls := cs, gl := g\<rparr>"
proof (induction n)
  case 0
  have "(display ^^ 0) w = w\<lparr>calls := calls w, gl := gl w\<rparr>" by simp
  then show ?case by blast
next
  case (Suc n)
  then obtain cs g where v: "(display ^^ n) w = w\<lparr>calls := cs, gl := g\<rparr>" by blast
  let ?v = "w\<lparr>calls := cs, gl := g\<rparr>"
  have "(display ^^ Suc n) w = display ?v" by (simp add: v)
  also have "\<dots> = ?v\<lparr>calls := calls (display ?v), gl := gl (display ?v)\<rparr>"
    by (rule display_frame)
  also have "\<dots> = w\<lparr>calls := calls (display ?v), gl := gl (display ?v)\<rparr>" by simp
  finally show ?case by blast
qed

lemma window_attrs_display: "window_attrs (display w) = window_attrs w"
proof (rule ext)
  fix p
  have "windows (display w) = windows w" by (subst display_frame) simp
  then show "window_attrs (display w) p = window_attrs w p" by (simp add: window_attrs_def)
qed

section \<open>The three paths through main\<close>

lemma main_init_fails:
  assumes "\<not> init_ok env"
  shows "main n env =
    (Some (- 1), (world0 env)\<lparr>calls := [GlfwInit, Cerr ''Failed to initialize GLFW'', Cerr [CHR 0x0A]],
       stderr := ''Failed to initialize GLFW'' @ [CHR 0x0A]\<rparr>)"
  using assms
  by (simp add: main_def glfwInit_def cerr_def endl_def record_call_def world0_def)

lemma main_create_fails:
  assumes "init_ok env" "window_ptr env = nullptr"
  shows "main n env =
    (Some (- 1), (world0 env)\<lparr>calls := [GlfwInit,
         GlfwCreateWindow 800 600 ''Chess Renderer'' nullptr nullptr, GlfwTerminate,
         Cerr ''Failed to create GLFW window'', Cerr [CHR 0x0A]],
       stderr := ''Failed to create GLFW window'' @ [CHR 0x0A]\<rparr>)"
  using assms
  by (simp add: main_def glfwInit_def glfwCreateWindow_def glfwTerminate_def cerr_def endl_def
      record_call_def world0_def)

lemma main_window:
  assumes "init_ok env" "window_ptr env \<noteq> nullptr"
  shows "main n env =
    (Some 1, (ready env)\<lparr>calls := calls (ready env) @ [GlutDisplayFunc Display],
                stderr := glut_not_initialised ''glutDisplayFunc''\<rparr>)"
  using assms
  by (simp add: main_def glfwInit_def glfwCreateWindow_def glfwMakeContextCurrent_def
      glfwSwapInterval_def glutDisplayFunc_def record_call_def world0_def ready_def)

section \<open>The loop\<close>

lemma loop_body_eq:
  "loop_body env window w =
     w\<lparr>calls := calls w @ [GlfwSwapBuffers window, GlfwPollEvents],
       polled := Suc (polled w),
       windows := (if close_request env (polled w)
                   then map_option (\<lambda>win. win\<lparr>should_close := True\<rparr>) \<circ> windows w
                   else windows w)\<rparr>"
  by (simp add: loop_body_def glfwSwapBuffers_def glfwPollEvents_def record_call_def)

lemma window_attrs_calls [simp]: "window_attrs (w\<lparr>calls := cs\<rparr>) = window_attrs w"
  by (rule ext) (simp add: window_attrs_def)

lemma window_attrs_record [simp]: "window_attrs (record_call c w) = window_attrs w"
  by (simp add: record_call_def)

lemma window_attrs_loop_body: "window_attrs (loop_body env window w) = window_attrs w"
  by (rule ext) (simp add: loop_body_eq window_attrs_def option.map_comp comp_def)

lemma should_close_step:
  "snd (glfwWindowShouldClose window w) = record_call (GlfwWindowShouldClose window) w"
  by (simp add: glfwWindowShouldClose_def)

lemma run_loop_Suc:
  "run_loop (Suc n) env window w =
     (if closing window w then (True, record_call (GlfwWindowShouldClose window) w)
      else run_loop n env window
             (loop_body env window (record_call (GlfwWindowShouldClose window) w)))"
  by (simp add: closing_def glfwWindowShouldClose_def)

declare run_loop.simps(2) [simp del]

lemma closing_record [simp]: "closing window (record_call c w) = closing window w"
  by (simp add: closing_def glfwWindowShouldClose_def record_call_def)

lemma closing_loop_body:
  assumes "windows w window \<noteq> None" "\<not> closing window w"
  shows "closing window (loop_body env window w) = close_request env (polled w)"
  using assms
  by (auto simp: closing_def glfwWindowShouldClose_def loop_body_eq)

lemma windows_loop_body:
  "(windows (loop_body env window w) p = None) = (windows w p = None)"
  by (simp add: loop_body_eq)

lemma polled_loop_body: "polled (loop_body env window w) = Suc (polled w)"
  by (simp add: loop_body_eq)

lemma run_loop_left:
  assumes "windows w window \<noteq> None"
  shows "fst (run_loop n env window w) =
         ((0 < n \<and> closing window w) \<or> (\<exists>k. k + 2 \<le> n \<and> close_request env (polled w + k)))"
  using assms
proof (induction n arbitrary: w)
  case 0
  show ?case by simp
next
  case (Suc n)
  let ?w1 = "record_call (GlfwWindowShouldClose window) w"
  show ?case
  proof (cases "closing window w")
    case True
    then show ?thesis by (simp add: run_loop_Suc)
  next
    case False
    let ?w2 = "loop_body env window ?w1"
    have ex: "windows ?w1 window \<noteq> None" using Suc.prems by (simp add: record_call_def)
    have nc: "\<not> closing window ?w1" using False by simp
    have w2: "windows ?w2 window \<noteq> None" using ex by (simp add: windows_loop_body)
    have c2: "closing window ?w2 = close_request env (polled w)"
      using closing_loop_body [OF ex nc] by (simp add: record_call_def)
    have p2: "polled ?w2 = Suc (polled w)" by (simp add: polled_loop_body record_call_def)
    have "fst (run_loop (Suc n) env window w) = fst (run_loop n env window ?w2)"
      using False by (simp add: run_loop_Suc)
    also have "\<dots> = ((0 < n \<and> close_request env (polled w)) \<or>
                     (\<exists>k. k + 2 \<le> n \<and> close_request env (Suc (polled w) + k)))"
      using Suc.IH [OF w2] by (simp only: c2 p2)
    also have "\<dots> = (\<exists>k. k + 2 \<le> Suc n \<and> close_request env (polled w + k))"
    proof
      assume "(0 < n \<and> close_request env (polled w)) \<or>
              (\<exists>k. k + 2 \<le> n \<and> close_request env (Suc (polled w) + k))"
      then show "\<exists>k. k + 2 \<le> Suc n \<and> close_request env (polled w + k)"
      proof
        assume "0 < n \<and> close_request env (polled w)"
        then have "0 + 2 \<le> Suc n \<and> close_request env (polled w + 0)" by simp
        then show ?thesis by blast
      next
        assume "\<exists>k. k + 2 \<le> n \<and> close_request env (Suc (polled w) + k)"
        then obtain k where "k + 2 \<le> n" "close_request env (Suc (polled w) + k)" by blast
        then have "Suc k + 2 \<le> Suc n \<and> close_request env (polled w + Suc k)" by simp
        then show ?thesis by blast
      qed
    next
      assume "\<exists>k. k + 2 \<le> Suc n \<and> close_request env (polled w + k)"
      then obtain k where k: "k + 2 \<le> Suc n" "close_request env (polled w + k)" by blast
      show "(0 < n \<and> close_request env (polled w)) \<or>
            (\<exists>k. k + 2 \<le> n \<and> close_request env (Suc (polled w) + k))"
      proof (cases k)
        case 0
        with k show ?thesis by simp
      next
        case (Suc j)
        with k have "j + 2 \<le> n \<and> close_request env (Suc (polled w) + j)" by simp
        then show ?thesis by blast
      qed
    qed
    finally show ?thesis using False by simp
  qed
qed

lemma run_loop_frame:
  "stderr (snd (run_loop n env window w)) = stderr w \<and>
   glfw_up (snd (run_loop n env window w)) = glfw_up w \<and>
   current (snd (run_loop n env window w)) = current w \<and>
   swap_interval (snd (run_loop n env window w)) = swap_interval w \<and>
   display_func (snd (run_loop n env window w)) = display_func w \<and>
   gl (snd (run_loop n env window w)) = gl w \<and>
   window_attrs (snd (run_loop n env window w)) = window_attrs w"
proof (induction n arbitrary: w)
  case 0
  show ?case by simp
next
  case (Suc n)
  let ?w1 = "record_call (GlfwWindowShouldClose window) w"
  let ?w2 = "loop_body env window ?w1"
  show ?case
  proof (cases "closing window w")
    case True
    then show ?thesis by (simp add: run_loop_Suc) (simp add: record_call_def)
  next
    case False
    have eq: "run_loop (Suc n) env window w = run_loop n env window ?w2"
      using False by (simp add: run_loop_Suc)
    have "stderr ?w2 = stderr w" "glfw_up ?w2 = glfw_up w" "current ?w2 = current w"
      "swap_interval ?w2 = swap_interval w" "display_func ?w2 = display_func w" "gl ?w2 = gl w"
      by (simp_all add: loop_body_eq record_call_def)
    moreover have "window_attrs ?w2 = window_attrs w"
      by (simp add: window_attrs_loop_body)
    ultimately show ?thesis using Suc.IH [of ?w2] by (simp only: eq)
  qed
qed

lemma run_loop_calls:
  "\<exists>k. (if fst (run_loop n env window w) then k < n else k = n) \<and>
       calls (snd (run_loop n env window w)) =
         calls w @ concat (replicate k (iteration window)) @
           (if fst (run_loop n env window w) then [GlfwWindowShouldClose window] else [])"
proof (induction n arbitrary: w)
  case 0
  show ?case by simp
next
  case (Suc n)
  let ?w1 = "record_call (GlfwWindowShouldClose window) w"
  let ?w2 = "loop_body env window ?w1"
  show ?case
  proof (cases "closing window w")
    case True
    then have "run_loop (Suc n) env window w = (True, ?w1)" by (simp add: run_loop_Suc)
    then have "(if fst (run_loop (Suc n) env window w) then 0 < Suc n else 0 = Suc n) \<and>
       calls (snd (run_loop (Suc n) env window w)) =
         calls w @ concat (replicate 0 (iteration window)) @
           (if fst (run_loop (Suc n) env window w) then [GlfwWindowShouldClose window] else [])"
      by (simp add: record_call_def)
    then show ?thesis by blast
  next
    case False
    have eq: "run_loop (Suc n) env window w = run_loop n env window ?w2"
      using False by (simp add: run_loop_Suc)
    have c2: "calls ?w2 = calls w @ iteration window"
      by (simp add: loop_body_eq record_call_def iteration_def)
    from Suc.IH [of ?w2] obtain k where
      k: "if fst (run_loop n env window ?w2) then k < n else k = n"
      and c: "calls (snd (run_loop n env window ?w2)) =
         calls ?w2 @ concat (replicate k (iteration window)) @
           (if fst (run_loop n env window ?w2) then [GlfwWindowShouldClose window] else [])"
      by blast
    have "(if fst (run_loop (Suc n) env window w) then Suc k < Suc n else Suc k = Suc n) \<and>
       calls (snd (run_loop (Suc n) env window w)) =
         calls w @ concat (replicate (Suc k) (iteration window)) @
           (if fst (run_loop (Suc n) env window w) then [GlfwWindowShouldClose window] else [])"
      using k c by (simp add: eq c2 split: if_splits)
    then show ?thesis by blast
  qed
qed


section \<open>The whole run\<close>

lemma ready_window:
  "window_ptr env \<noteq> nullptr \<Longrightarrow> windows (ready env) (window_ptr env) \<noteq> None"
  "\<not> closing (window_ptr env) (ready env)"
  "polled (ready env) = 0"
  "glfw_up (ready env)"
  by (simp_all add: ready_def world0_def closing_def glfwWindowShouldClose_def)

lemma ready_calls:
  "calls (ready env) =
     [GlfwInit, GlfwCreateWindow 800 600 ''Chess Renderer'' nullptr nullptr,
      GlfwMakeContextCurrent (window_ptr env), GlfwSwapInterval 1]"
  by (simp add: ready_def)

lemma main_status:
  "fst (main n env) =
     (if \<not> init_ok env then Some (- 1)
      else if window_ptr env = nullptr then Some (- 1)
      else Some 1)"
  by (simp add: main_init_fails main_create_fails main_window)

lemma main_calls:
  "calls (snd (main n env)) =
     (if \<not> init_ok env
        then [GlfwInit, Cerr ''Failed to initialize GLFW'', Cerr [CHR 0x0A]]
      else if window_ptr env = nullptr
        then [GlfwInit, GlfwCreateWindow 800 600 ''Chess Renderer'' nullptr nullptr,
              GlfwTerminate, Cerr ''Failed to create GLFW window'', Cerr [CHR 0x0A]]
      else [GlfwInit, GlfwCreateWindow 800 600 ''Chess Renderer'' nullptr nullptr,
            GlfwMakeContextCurrent (window_ptr env), GlfwSwapInterval 1,
            GlutDisplayFunc Display])"
  by (simp add: main_init_fails main_create_fails main_window ready_calls)

lemma main_gl: "gl (snd (main n env)) = context0 env"
  by (cases "init_ok env"; cases "window_ptr env = nullptr")
     (simp_all add: main_init_fails main_create_fails main_window world0_def ready_def)

lemma main_glfw_up:
  "glfw_up (snd (main n env)) = (init_ok env \<and> window_ptr env \<noteq> nullptr)"
  by (cases "init_ok env"; cases "window_ptr env = nullptr")
     (simp_all add: main_init_fails main_create_fails main_window world0_def ready_def)

lemma main_window_attrs:
  "window_attrs (snd (main n env)) =
     (if init_ok env \<and> window_ptr env \<noteq> nullptr
      then [window_ptr env \<mapsto> (800, 600, ''Chess Renderer'')] else Map.empty)"
  by (cases "init_ok env"; cases "window_ptr env = nullptr"; rule ext)
     (simp_all add: main_init_fails main_create_fails main_window world0_def ready_def
       window_attrs_def)

lemma main_display_func: "display_func (snd (main n env)) = None"
  by (cases "init_ok env"; cases "window_ptr env = nullptr")
     (simp_all add: main_init_fails main_create_fails main_window world0_def ready_def)

subsection \<open>From the loop on\<close>

lemma from_loop_left:
  assumes "fst (run_loop n env window w)"
  shows "main_from_loop n env window w =
    (Some 0, glfwTerminate (glfwDestroyWindow window (snd (run_loop n env window w))))"
  using assms by (cases "run_loop n env window w") (simp add: main_from_loop_def)

lemma from_loop_running:
  assumes "\<not> fst (run_loop n env window w)"
  shows "main_from_loop n env window w = (None, snd (run_loop n env window w))"
  using assms by (cases "run_loop n env window w") (simp add: main_from_loop_def)

lemma from_loop_status:
  assumes "windows w window \<noteq> None"
  shows "fst (main_from_loop n env window w) =
     (if (0 < n \<and> closing window w) \<or> (\<exists>k. k + 2 \<le> n \<and> close_request env (polled w + k))
      then Some 0 else None)"
proof (cases "fst (run_loop n env window w)")
  case True
  then show ?thesis using run_loop_left [OF assms, of n env] by (simp add: from_loop_left)
next
  case False
  then show ?thesis using run_loop_left [OF assms, of n env] by (simp add: from_loop_running)
qed

lemma from_loop_calls:
  "\<exists>k. (if fst (main_from_loop n env window w) = None then k = n else k < n) \<and>
    calls (snd (main_from_loop n env window w)) =
      calls w @ concat (replicate k (iteration window)) @
        (if fst (main_from_loop n env window w) = None then []
         else [GlfwWindowShouldClose window, GlfwDestroyWindow window, GlfwTerminate])"
proof -
  let ?r = "run_loop n env window w"
  from run_loop_calls [of n env window w] obtain k where
    k: "if fst ?r then k < n else k = n"
    and c: "calls (snd ?r) = calls w @ concat (replicate k (iteration window)) @
           (if fst ?r then [GlfwWindowShouldClose window] else [])"
    by blast
  show ?thesis
  proof (cases "fst ?r")
    case True
    have "(if fst (main_from_loop n env window w) = None then k = n else k < n) \<and>
      calls (snd (main_from_loop n env window w)) =
      calls w @ concat (replicate k (iteration window)) @
        (if fst (main_from_loop n env window w) = None then []
         else [GlfwWindowShouldClose window, GlfwDestroyWindow window, GlfwTerminate])"
      using k c True
      by (simp add: from_loop_left [OF True] glfwTerminate_def glfwDestroyWindow_def
          record_call_def)
    then show ?thesis by blast
  next
    case False
    have "(if fst (main_from_loop n env window w) = None then k = n else k < n) \<and>
      calls (snd (main_from_loop n env window w)) =
      calls w @ concat (replicate k (iteration window)) @
        (if fst (main_from_loop n env window w) = None then []
         else [GlfwWindowShouldClose window, GlfwDestroyWindow window, GlfwTerminate])"
      using k c False by (simp add: from_loop_running [OF False])
    then show ?thesis by blast
  qed
qed

lemma filter_iterations:
  assumes "filter P (iteration window) = []"
  shows "filter P (concat (replicate k (iteration window))) = []"
  using assms by (induction k) simp_all

lemma from_loop_gl_calls:
  "filter gl_call (calls (snd (main_from_loop n env window w))) = filter gl_call (calls w)"
proof -
  have i: "filter gl_call (iteration window) = []" by (simp add: iteration_def)
  from from_loop_calls [of n env window w] obtain k where
    "calls (snd (main_from_loop n env window w)) =
      calls w @ concat (replicate k (iteration window)) @
        (if fst (main_from_loop n env window w) = None then []
         else [GlfwWindowShouldClose window, GlfwDestroyWindow window, GlfwTerminate])"
    by blast
  then show ?thesis by (simp add: filter_iterations [OF i])
qed

lemma from_loop_gl:
  "gl (snd (main_from_loop n env window w)) = gl w \<and>
   display_func (snd (main_from_loop n env window w)) = display_func w"
proof (cases "fst (run_loop n env window w)")
  case True
  then show ?thesis using run_loop_frame [of n env window w]
    by (simp add: from_loop_left glfwTerminate_def glfwDestroyWindow_def record_call_def)
next
  case False
  then show ?thesis using run_loop_frame [of n env window w]
    by (simp add: from_loop_running)
qed

lemma window_attrs_ops:
  "window_attrs (glfwMakeContextCurrent p w) = window_attrs w"
  "window_attrs (glfwSwapInterval i w) = window_attrs w"
  "window_attrs (snd (glutDisplayFunc f w)) = window_attrs w"
  "window_attrs (snd (glfwWindowShouldClose p w)) = window_attrs w"
  "window_attrs (glfwSwapBuffers p w) = window_attrs w"
  "window_attrs (glfwPollEvents env w) = window_attrs w"
  by (rule ext, simp add: window_attrs_def glfwMakeContextCurrent_def glfwSwapInterval_def
      glutDisplayFunc_def glfwWindowShouldClose_def glfwSwapBuffers_def glfwPollEvents_def
      record_call_def option.map_comp comp_def Let_def)+

lemma main_created:
  "filter creates_window (calls (snd (main n env))) =
     (if init_ok env then [GlfwCreateWindow 800 600 ''Chess Renderer'' nullptr nullptr] else [])"
  by (simp add: main_calls)

lemma main_lifecycle:
  "filter lifecycle (calls (snd (main n env))) =
     (if \<not> init_ok env then [GlfwInit]
      else if window_ptr env = nullptr
        then [GlfwInit, GlfwCreateWindow 800 600 ''Chess Renderer'' nullptr nullptr,
              GlfwTerminate]
      else [GlfwInit, GlfwCreateWindow 800 600 ''Chess Renderer'' nullptr nullptr])"
  by (simp add: main_calls)

lemma main_gl_calls: "filter gl_call (calls (snd (main n env))) = []"
  by (simp add: main_calls)

section \<open>The properties\<close>

text \<open>
  Claim C1. When \<^verbatim>\<open>glfwInit\<close> fails, \<^verbatim>\<open>main\<close> returns \<open>-1\<close>, whatever the bound on the loop.
  The calls it has made are \<^verbatim>\<open>glfwInit\<close> and the two writes of line 23 and nothing else, so
  standard error holds the line \<^verbatim>\<open>Failed to initialize GLFW\<close> and no window was ever asked
  for.
\<close>

theorem init_failure_exits:
  assumes "\<not> init_ok env"
  shows "fst (main n env) = Some (- 1) \<and>
         calls (snd (main n env)) =
           [GlfwInit, Cerr ''Failed to initialize GLFW'', Cerr [CHR 0x0A]] \<and>
         stderr (snd (main n env)) = ''Failed to initialize GLFW'' @ [CHR 0x0A] \<and>
         filter creates_window (calls (snd (main n env))) = []"
  by (simp add: main_init_fails [OF assms])

theorem init_failure_exits_witness:
  "\<not> init_ok \<lparr>init_ok = False, window_ptr = 1, close_request = (\<lambda>k. True),
                context0 = fresh_context 2 2\<rparr> \<and>
   fst (main 3 \<lparr>init_ok = False, window_ptr = 1, close_request = (\<lambda>k. True),
                context0 = fresh_context 2 2\<rparr>) = Some (- 1) \<and>
   stderr (snd (main 3 \<lparr>init_ok = False, window_ptr = 1, close_request = (\<lambda>k. True),
                context0 = fresh_context 2 2\<rparr>)) = ''Failed to initialize GLFW'' @ [CHR 0x0A]"
  using init_failure_exits [of "\<lparr>init_ok = False, window_ptr = 1, close_request = (\<lambda>k. True),
                context0 = fresh_context 2 2\<rparr>" 3]
  by simp

text \<open>
  Claim C2. When \<^verbatim>\<open>glfwInit\<close> succeeds and \<^verbatim>\<open>glfwCreateWindow\<close> returns \<^verbatim>\<open>nullptr\<close>,
  \<^verbatim>\<open>main\<close> returns \<open>-1\<close>. Its calls are, in this order: \<^verbatim>\<open>glfwInit\<close>, the request for the
  window, \<^verbatim>\<open>glfwTerminate\<close>, and only then the two writes of line 31. \<^verbatim>\<open>glfwTerminate\<close>
  occurs once, and the subsystem is down at the end.
\<close>

theorem window_failure_tears_down:
  assumes "init_ok env" "window_ptr env = nullptr"
  shows "fst (main n env) = Some (- 1) \<and>
         calls (snd (main n env)) =
           [GlfwInit, GlfwCreateWindow 800 600 ''Chess Renderer'' nullptr nullptr, GlfwTerminate,
            Cerr ''Failed to create GLFW window'', Cerr [CHR 0x0A]] \<and>
         count_list (calls (snd (main n env))) GlfwTerminate = 1 \<and>
         stderr (snd (main n env)) = ''Failed to create GLFW window'' @ [CHR 0x0A] \<and>
         \<not> glfw_up (snd (main n env))"
  by (simp add: main_create_fails [OF assms] world0_def)

theorem window_failure_tears_down_witness:
  "init_ok \<lparr>init_ok = True, window_ptr = 0, close_request = (\<lambda>k. True),
             context0 = fresh_context 2 2\<rparr> \<and>
   window_ptr \<lparr>init_ok = True, window_ptr = 0, close_request = (\<lambda>k. True),
             context0 = fresh_context 2 2\<rparr> = nullptr \<and>
   fst (main 3 \<lparr>init_ok = True, window_ptr = 0, close_request = (\<lambda>k. True),
             context0 = fresh_context 2 2\<rparr>) = Some (- 1) \<and>
   count_list (calls (snd (main 3 \<lparr>init_ok = True, window_ptr = 0, close_request = (\<lambda>k. True),
             context0 = fresh_context 2 2\<rparr>))) GlfwTerminate = 1"
  using window_failure_tears_down [of "\<lparr>init_ok = True, window_ptr = 0,
             close_request = (\<lambda>k. True), context0 = fresh_context 2 2\<rparr>" 3]
  by (simp add: nullptr_def)

text \<open>
  Claim C3. The status with which the process ends, for every environment: \<open>-1\<close> when
  \<^verbatim>\<open>glfwInit\<close> fails, \<open>-1\<close> when no window is created, and \<open>1\<close> whenever the window has been
  created: \<^verbatim>\<open>main\<close> calls \<^verbatim>\<open>glutDisplayFunc\<close> in line 38 without \<^verbatim>\<open>glutInit\<close> ever having been
  called, and the process ends inside that call. No run ends with \<open>0\<close>. Lines 40 to 47
  taken by themselves, started with the window in existence, do return \<open>0\<close> as soon as a
  close request has been seen, and nothing else.
\<close>

theorem exit_status:
  "fst (main n env) =
     (if \<not> init_ok env then Some (- 1)
      else if window_ptr env = nullptr then Some (- 1)
      else Some 1) \<and>
   (windows w window \<noteq> None \<longrightarrow>
      fst (main_from_loop n env window w) =
        (if (0 < n \<and> closing window w) \<or>
            (\<exists>k. k + 2 \<le> n \<and> close_request env (polled w + k))
         then Some 0 else None))"
  using main_status [of n env] from_loop_status [of w window n env] by blast

theorem exit_status_witness:
  "fst (main 3 \<lparr>init_ok = False, window_ptr = 1, close_request = (\<lambda>k. k = 1),
                context0 = fresh_context 2 2\<rparr>) = Some (- 1) \<and>
   fst (main 3 \<lparr>init_ok = True, window_ptr = 0, close_request = (\<lambda>k. k = 1),
                context0 = fresh_context 2 2\<rparr>) = Some (- 1) \<and>
   fst (main 3 \<lparr>init_ok = True, window_ptr = 1, close_request = (\<lambda>k. k = 1),
                context0 = fresh_context 2 2\<rparr>) = Some 1 \<and>
   windows (ready \<lparr>init_ok = True, window_ptr = 1, close_request = (\<lambda>k. k = 1),
                context0 = fresh_context 2 2\<rparr>) 1 \<noteq> None \<and>
   fst (main_from_loop 3 \<lparr>init_ok = True, window_ptr = 1, close_request = (\<lambda>k. k = 1),
                context0 = fresh_context 2 2\<rparr> 1
         (ready \<lparr>init_ok = True, window_ptr = 1, close_request = (\<lambda>k. k = 1),
                context0 = fresh_context 2 2\<rparr>)) = Some 0"
proof -
  let ?e = "\<lparr>init_ok = True, window_ptr = 1, close_request = (\<lambda>k. k = (1::nat)),
            context0 = fresh_context 2 2\<rparr>"
  have w: "windows (ready ?e) 1 \<noteq> None" by (simp add: ready_def)
  have c: "\<exists>k. k + 2 \<le> (3::nat) \<and> close_request ?e (polled (ready ?e) + k)"
    by (rule exI [of _ 1]) (simp add: ready_def world0_def)
  from exit_status [of 3 "\<lparr>init_ok = False, window_ptr = 1,
         close_request = (\<lambda>k. k = (1::nat)), context0 = fresh_context 2 2\<rparr>"]
  have 1: "fst (main 3 \<lparr>init_ok = False, window_ptr = 1,
         close_request = (\<lambda>k. k = (1::nat)), context0 = fresh_context 2 2\<rparr>) = Some (- 1)"
    by simp
  from exit_status [of 3 "\<lparr>init_ok = True, window_ptr = 0,
         close_request = (\<lambda>k. k = (1::nat)), context0 = fresh_context 2 2\<rparr>"]
  have 2: "fst (main 3 \<lparr>init_ok = True, window_ptr = 0,
         close_request = (\<lambda>k. k = (1::nat)), context0 = fresh_context 2 2\<rparr>) = Some (- 1)"
    by (simp add: nullptr_def)
  from exit_status [of 3 ?e "ready ?e" 1] w c
  have 3: "fst (main 3 ?e) = Some 1" and 4: "fst (main_from_loop 3 ?e 1 (ready ?e)) = Some 0"
    by (simp_all add: nullptr_def)
  from 1 2 3 w 4 show ?thesis by (simp only: simp_thms)
qed

text \<open>
  Claim C4. Called with no primitive open (outside \<^verbatim>\<open>glBegin\<close>/\<^verbatim>\<open>glEnd\<close>, as a callback
  is), \<^verbatim>\<open>display\<close> leaves the context in a state that a second call does not change; after
  any number \<open>n + 1\<close> of calls in a row the context is as after one call and nothing else of
  the state differs from the start but the record of calls; every pixel of the colour
  buffer is black \<open>(0, 0, 0)\<close>, whatever the clear colour and the buffer held before, and
  the buffer keeps its size.
\<close>

theorem display_idempotent:
  assumes "mode (gl w) = None"
  shows "gl (display (display w)) = gl (display w) \<and>
         (display ^^ Suc n) w =
           w\<lparr>calls := calls ((display ^^ Suc n) w), gl := gl (display w)\<rparr> \<and>
         pixels (gl (display w)) = replicate (fb_w (gl w) * fb_h (gl w)) (0, 0, 0) \<and>
         fb_w (gl (display w)) = fb_w (gl w) \<and> fb_h (gl (display w)) = fb_h (gl w)"
proof -
  have "gl (display (display w)) = gl (display w)"
    by (rule display_gl_again [OF assms refl])
  moreover have "(display ^^ Suc n) w =
           w\<lparr>calls := calls ((display ^^ Suc n) w), gl := gl (display w)\<rparr>"
  proof -
    obtain cs g where v: "(display ^^ Suc n) w = w\<lparr>calls := cs, gl := g\<rparr>"
      using display_n_frame [of "Suc n" w] by blast
    have "g = gl (display w)" using display_n_gl [OF assms, of n] by (simp only: v) simp
    then show ?thesis by (simp only: v) simp
  qed
  ultimately show ?thesis by (simp add: display_gl [OF assms])
qed

theorem display_idempotent_witness:
  "mode (gl (world0 \<lparr>init_ok = True, window_ptr = 1, close_request = (\<lambda>k. False),
                     context0 = (fresh_context 2 1)\<lparr>clear_color := (1, 1, 1)\<rparr>\<rparr>)) = None \<and>
   gl (display (display (world0 \<lparr>init_ok = True, window_ptr = 1, close_request = (\<lambda>k. False),
                     context0 = (fresh_context 2 1)\<lparr>clear_color := (1, 1, 1)\<rparr>\<rparr>))) =
   gl (display (world0 \<lparr>init_ok = True, window_ptr = 1, close_request = (\<lambda>k. False),
                     context0 = (fresh_context 2 1)\<lparr>clear_color := (1, 1, 1)\<rparr>\<rparr>)) \<and>
   pixels (gl (display (world0 \<lparr>init_ok = True, window_ptr = 1, close_request = (\<lambda>k. False),
                     context0 = (fresh_context 2 1)\<lparr>clear_color := (1, 1, 1)\<rparr>\<rparr>))) =
   [(0, 0, 0), (0, 0, 0)]"
proof -
  let ?w = "world0 \<lparr>init_ok = True, window_ptr = 1, close_request = (\<lambda>k. False),
                     context0 = (fresh_context 2 1)\<lparr>clear_color := (1, 1, 1)\<rparr>\<rparr>"
  have m: "mode (gl ?w) = None" by (simp add: world0_def fresh_context_def)
  have d: "fb_w (gl ?w) * fb_h (gl ?w) = Suc (Suc 0)" by (simp add: world0_def fresh_context_def)
  from display_idempotent [OF m, of 0] m show ?thesis by (simp only: d) simp
qed

text \<open>
  Claim C5. \<^verbatim>\<open>display\<close> makes exactly nine calls, in this order: \<^verbatim>\<open>glClear\<close> of the colour
  buffer, \<^verbatim>\<open>glBegin(GL_QUADS)\<close>, \<^verbatim>\<open>glColor3f(0, 0, 0)\<close>, the four vertices \<open>(-1, -1)\<close>,
  \<open>(1, -1)\<close>, \<open>(1, 1)\<close>, \<open>(-1, 1)\<close>, \<^verbatim>\<open>glEnd\<close>, \<^verbatim>\<open>glFlush\<close>. Called with no primitive open,
  their effect on the context is that of flushing a queue to which one clear and one filled
  quadrilateral with these four vertices, each black, have been added, and nothing is left
  pending.
\<close>

theorem display_sequence:
  "calls (display w) =
     calls w @ [GlClear GL_COLOR_BUFFER_BIT, GlBegin GL_QUADS, GlColor3f 0 0 0,
                GlVertex2f (- 1) (- 1), GlVertex2f 1 (- 1), GlVertex2f 1 1, GlVertex2f (- 1) 1,
                GlEnd, GlFlush] \<and>
   (mode (gl w) = None \<longrightarrow>
      gl (display w) =
        flush ((gl w)\<lparr>current_color := (0, 0, 0), mode := None, verts := [],
                 queue := queue (gl w) @
                   [Clear (clear_color (gl w)),
                    Fill [((- 1, - 1), (0, 0, 0)), ((1, - 1), (0, 0, 0)),
                          ((1, 1), (0, 0, 0)), ((- 1, 1), (0, 0, 0))]]\<rparr>) \<and>
      queue (gl (display w)) = [])"
proof (intro conjI impI)
  show "calls (display w) =
     calls w @ [GlClear GL_COLOR_BUFFER_BIT, GlBegin GL_QUADS, GlColor3f 0 0 0,
                GlVertex2f (- 1) (- 1), GlVertex2f 1 (- 1), GlVertex2f 1 1, GlVertex2f (- 1) 1,
                GlEnd, GlFlush]"
    by (rule display_calls)
next
  assume m: "mode (gl w) = None"
  have "gl (display w) =
        flush (gl (glEnd (glVertex2f (- 1) 1 (glVertex2f 1 1 (glVertex2f 1 (- 1)
          (glVertex2f (- 1) (- 1) (glColor3f 0 0 0 (glBegin GL_QUADS
          (glClear GL_COLOR_BUFFER_BIT w)))))))))"
    unfolding display_def Let_def by (subst glFlush_def) (simp add: record_call_def)
  then show "gl (display w) =
        flush ((gl w)\<lparr>current_color := (0, 0, 0), mode := None, verts := [],
                 queue := queue (gl w) @
                   [Clear (clear_color (gl w)),
                    Fill [((- 1, - 1), (0, 0, 0)), ((1, - 1), (0, 0, 0)),
                          ((1, 1), (0, 0, 0)), ((- 1, 1), (0, 0, 0))]]\<rparr>)"
    by (simp add: display_queue [OF m] full_quad_def)
next
  assume m: "mode (gl w) = None"
  show "queue (gl (display w)) = []" by (simp add: display_gl [OF m])
qed

theorem display_sequence_witness:
  "calls (display (world0 \<lparr>init_ok = True, window_ptr = 1, close_request = (\<lambda>k. False),
                           context0 = fresh_context 2 1\<rparr>)) =
     [GlClear GL_COLOR_BUFFER_BIT, GlBegin GL_QUADS, GlColor3f 0 0 0,
      GlVertex2f (- 1) (- 1), GlVertex2f 1 (- 1), GlVertex2f 1 1, GlVertex2f (- 1) 1,
      GlEnd, GlFlush] \<and>
   mode (gl (world0 \<lparr>init_ok = True, window_ptr = 1, close_request = (\<lambda>k. False),
                           context0 = fresh_context 2 1\<rparr>)) = None \<and>
   queue (gl (display (world0 \<lparr>init_ok = True, window_ptr = 1, close_request = (\<lambda>k. False),
                           context0 = fresh_context 2 1\<rparr>))) = []"
proof -
  let ?w = "world0 \<lparr>init_ok = True, window_ptr = 1, close_request = (\<lambda>k. False),
                           context0 = fresh_context 2 1\<rparr>"
  have m: "mode (gl ?w) = None" by (simp add: world0_def fresh_context_def)
  have c: "calls ?w = []" by (simp add: world0_def)
  from display_sequence [of ?w] m
  have "calls (display ?w) = calls ?w @ [GlClear GL_COLOR_BUFFER_BIT, GlBegin GL_QUADS,
      GlColor3f 0 0 0, GlVertex2f (- 1) (- 1), GlVertex2f 1 (- 1), GlVertex2f 1 1,
      GlVertex2f (- 1) 1, GlEnd, GlFlush]"
    and "queue (gl (display ?w)) = []"
    by blast+
  with m c show ?thesis by (simp only: append_Nil simp_thms)
qed



text \<open>
  Claim C7. While the close flag is clear, one pass of the loop is the body followed by the
  rest of the loop. The body makes two calls, \<^verbatim>\<open>glfwSwapBuffers\<close> then \<^verbatim>\<open>glfwPollEvents\<close>,
  and changes nothing else than the place in the event queue and, when a close request
  arrives, the close flag. The calls of the loop are therefore some number of copies of the
  same three calls (test, swap, poll), followed by the final test when the loop is left.
\<close>

theorem loop_iteration:
  "(\<not> closing window w \<longrightarrow>
      run_loop (Suc n) env window w =
        run_loop n env window (loop_body env window (snd (glfwWindowShouldClose window w)))) \<and>
   loop_body env window w =
     w\<lparr>calls := calls w @ [GlfwSwapBuffers window, GlfwPollEvents],
       polled := Suc (polled w),
       windows := (if close_request env (polled w)
                   then map_option (\<lambda>win. win\<lparr>should_close := True\<rparr>) \<circ> windows w
                   else windows w)\<rparr> \<and>
   (\<exists>k. (if fst (run_loop n env window w) then k < n else k = n) \<and>
        calls (snd (run_loop n env window w)) =
          calls w @ concat (replicate k (iteration window)) @
            (if fst (run_loop n env window w) then [GlfwWindowShouldClose window] else []))"
proof (intro conjI impI)
  assume "\<not> closing window w"
  then show "run_loop (Suc n) env window w =
        run_loop n env window (loop_body env window (snd (glfwWindowShouldClose window w)))"
    by (simp add: run_loop_Suc should_close_step)
next
  show "loop_body env window w =
     w\<lparr>calls := calls w @ [GlfwSwapBuffers window, GlfwPollEvents],
       polled := Suc (polled w),
       windows := (if close_request env (polled w)
                   then map_option (\<lambda>win. win\<lparr>should_close := True\<rparr>) \<circ> windows w
                   else windows w)\<rparr>"
    by (rule loop_body_eq)
next
  show "\<exists>k. (if fst (run_loop n env window w) then k < n else k = n) \<and>
        calls (snd (run_loop n env window w)) =
          calls w @ concat (replicate k (iteration window)) @
            (if fst (run_loop n env window w) then [GlfwWindowShouldClose window] else [])"
    by (rule run_loop_calls)
qed

theorem loop_iteration_witness:
  "\<not> closing 1 (ready \<lparr>init_ok = True, window_ptr = 1, close_request = (\<lambda>k. k = 1),
                        context0 = fresh_context 2 2\<rparr>) \<and>
   run_loop (Suc 2) \<lparr>init_ok = True, window_ptr = 1, close_request = (\<lambda>k. k = 1),
                      context0 = fresh_context 2 2\<rparr> 1
     (ready \<lparr>init_ok = True, window_ptr = 1, close_request = (\<lambda>k. k = 1),
             context0 = fresh_context 2 2\<rparr>) =
   run_loop 2 \<lparr>init_ok = True, window_ptr = 1, close_request = (\<lambda>k. k = 1),
                context0 = fresh_context 2 2\<rparr> 1
     (loop_body \<lparr>init_ok = True, window_ptr = 1, close_request = (\<lambda>k. k = 1),
                 context0 = fresh_context 2 2\<rparr> 1
       (snd (glfwWindowShouldClose 1
         (ready \<lparr>init_ok = True, window_ptr = 1, close_request = (\<lambda>k. k = 1),
                 context0 = fresh_context 2 2\<rparr>))))"
proof -
  let ?e = "\<lparr>init_ok = True, window_ptr = 1, close_request = (\<lambda>k. k = (1::nat)),
            context0 = fresh_context 2 2\<rparr>"
  have c: "\<not> closing 1 (ready ?e)" using ready_window(2) [of ?e] by simp
  from loop_iteration [of 1 "ready ?e" 2 ?e] c show ?thesis by blast
qed

text \<open>
  Claim C8. When a run ends, the only window there can be is the one created in line 28,
  with width 800, height 600 and the title \<^verbatim>\<open>Chess Renderer\<close>. \<^verbatim>\<open>glfwCreateWindow\<close> is called
  at most once, with these arguments. At every point at which the loop can be cut off, and
  from whatever state it was entered, the width, height and title of every window are
  what they were when the loop was entered. Every operation the program uses after the
  creation, and \<^verbatim>\<open>display\<close>, leaves the width, height and title of every window as they
  are.
\<close>

theorem window_attributes_constant:
  "window_attrs (snd (main n env)) =
     (if init_ok env \<and> window_ptr env \<noteq> nullptr
      then [window_ptr env \<mapsto> (800, 600, ''Chess Renderer'')] else Map.empty) \<and>
   filter creates_window (calls (snd (main n env))) =
     (if init_ok env then [GlfwCreateWindow 800 600 ''Chess Renderer'' nullptr nullptr] else []) \<and>
   window_attrs (snd (run_loop n env p w)) = window_attrs w \<and>
   window_attrs (glfwMakeContextCurrent p w) = window_attrs w \<and>
   window_attrs (glfwSwapInterval i w) = window_attrs w \<and>
   window_attrs (snd (glutDisplayFunc f w)) = window_attrs w \<and>
   window_attrs (snd (glfwWindowShouldClose p w)) = window_attrs w \<and>
   window_attrs (glfwSwapBuffers p w) = window_attrs w \<and>
   window_attrs (glfwPollEvents env w) = window_attrs w \<and>
   window_attrs (display w) = window_attrs w"
proof -
  have "window_attrs (snd (run_loop n env p w)) = window_attrs w"
    using run_loop_frame [of n env p w] by simp
  then show ?thesis
    by (simp only: main_window_attrs main_created window_attrs_ops window_attrs_display
        simp_thms)
qed

theorem window_attributes_constant_witness:
  "window_attrs (snd (main 2 \<lparr>init_ok = True, window_ptr = 1, close_request = (\<lambda>k. k = 1),
                               context0 = fresh_context 2 2\<rparr>)) 1 =
     Some (800, 600, ''Chess Renderer'') \<and>
   window_attrs (snd (run_loop 2 \<lparr>init_ok = True, window_ptr = 1, close_request = (\<lambda>k. k = 1),
                               context0 = fresh_context 2 2\<rparr> 1
     (ready \<lparr>init_ok = True, window_ptr = 1, close_request = (\<lambda>k. k = 1),
                               context0 = fresh_context 2 2\<rparr>))) 1 =
     Some (800, 600, ''Chess Renderer'')"
proof -
  let ?e = "\<lparr>init_ok = True, window_ptr = 1, close_request = (\<lambda>k. k = (1::nat)),
            context0 = fresh_context 2 2\<rparr>"
  have r: "window_attrs (ready ?e) 1 = Some (800, 600, ''Chess Renderer'')"
    by (simp add: window_attrs_def ready_def)
  from window_attributes_constant [of 2 ?e 1 "ready ?e"] r
  show ?thesis by (simp add: nullptr_def)
qed

text \<open>
  Claim C9. The calls of a run that acquire or release a resource, in order: on the path
  where \<^verbatim>\<open>glfwInit\<close> fails, \<^verbatim>\<open>glfwInit\<close> alone; where the window is refused, \<^verbatim>\<open>glfwInit\<close>,
  the request, \<^verbatim>\<open>glfwTerminate\<close>; and where the window is created, \<^verbatim>\<open>glfwInit\<close> and the
  request and no release: the process ends with status \<open>1\<close> inside \<^verbatim>\<open>glutDisplayFunc\<close> in
  line 38, with the subsystem up and the window in existence. The releases are in lines 45
  and 46: whenever lines 40 to 47 return, they have added \<^verbatim>\<open>glfwDestroyWindow\<close> of the
  window and \<^verbatim>\<open>glfwTerminate\<close>, once each and in this order, and nothing else that acquires
  or releases.
\<close>

theorem exit_with_resources_held:
  "filter lifecycle (calls (snd (main n env))) =
     (if \<not> init_ok env then [GlfwInit]
      else if window_ptr env = nullptr
        then [GlfwInit, GlfwCreateWindow 800 600 ''Chess Renderer'' nullptr nullptr,
              GlfwTerminate]
      else [GlfwInit, GlfwCreateWindow 800 600 ''Chess Renderer'' nullptr nullptr]) \<and>
   fst (main n env) = (if init_ok env \<and> window_ptr env \<noteq> nullptr then Some 1 else Some (- 1)) \<and>
   glfw_up (snd (main n env)) = (init_ok env \<and> window_ptr env \<noteq> nullptr) \<and>
   window_attrs (snd (main n env)) =
     (if init_ok env \<and> window_ptr env \<noteq> nullptr
      then [window_ptr env \<mapsto> (800, 600, ''Chess Renderer'')] else Map.empty) \<and>
   filter lifecycle (calls (snd (main_from_loop n env window w))) =
     filter lifecycle (calls w) @
       (if fst (main_from_loop n env window w) = None then []
        else [GlfwDestroyWindow window, GlfwTerminate])"
proof -
  have i: "filter lifecycle (iteration window) = []" by (simp add: iteration_def)
  from from_loop_calls [of n env window w] obtain k where
    "calls (snd (main_from_loop n env window w)) =
      calls w @ concat (replicate k (iteration window)) @
        (if fst (main_from_loop n env window w) = None then []
         else [GlfwWindowShouldClose window, GlfwDestroyWindow window, GlfwTerminate])"
    by blast
  then have "filter lifecycle (calls (snd (main_from_loop n env window w))) =
     filter lifecycle (calls w) @
       (if fst (main_from_loop n env window w) = None then []
        else [GlfwDestroyWindow window, GlfwTerminate])"
    by (simp add: filter_iterations [OF i])
  moreover have "fst (main n env) =
      (if init_ok env \<and> window_ptr env \<noteq> nullptr then Some 1 else Some (- 1))"
    by (simp add: main_status)
  ultimately show ?thesis
    by (simp only: main_lifecycle main_glfw_up main_window_attrs simp_thms)
qed

theorem exit_with_resources_held_witness:
  "filter lifecycle (calls (snd (main 3
      \<lparr>init_ok = True, window_ptr = 1, close_request = (\<lambda>k. k = 1),
       context0 = fresh_context 2 2\<rparr>))) =
     [GlfwInit, GlfwCreateWindow 800 600 ''Chess Renderer'' nullptr nullptr] \<and>
   fst (main 3 \<lparr>init_ok = True, window_ptr = 1, close_request = (\<lambda>k. k = 1),
       context0 = fresh_context 2 2\<rparr>) = Some 1 \<and>
   glfw_up (snd (main 3 \<lparr>init_ok = True, window_ptr = 1, close_request = (\<lambda>k. k = 1),
       context0 = fresh_context 2 2\<rparr>)) \<and>
   window_attrs (snd (main 3 \<lparr>init_ok = True, window_ptr = 1, close_request = (\<lambda>k. k = 1),
       context0 = fresh_context 2 2\<rparr>)) 1 = Some (800, 600, ''Chess Renderer'')"
  using exit_with_resources_held [of 3 "\<lparr>init_ok = True, window_ptr = 1,
       close_request = (\<lambda>k. k = (1::nat)), context0 = fresh_context 2 2\<rparr>"]
  by (simp add: nullptr_def)

text \<open>
  Claim C10. In every run, the record of calls, and so every initial part of it, holds no
  OpenGL call, and the graphics context is as it started, although \<^verbatim>\<open>main\<close> has asked for
  \<^verbatim>\<open>display\<close> to be registered whenever the window was created; the process ends inside
  that request, so no callback is registered at the end of a run. Lines 40 to 47, cut off at
  any point and entered in any state (with \<^verbatim>\<open>display\<close> registered or not), add no OpenGL
  call to the record and leave the graphics context and the registered callback as they
  are. Every run of \<^verbatim>\<open>display\<close> adds nine OpenGL calls to the record, so \<^verbatim>\<open>display\<close> has not
  run.
\<close>

theorem display_never_runs:
  "filter gl_call (take j (calls (snd (main n env)))) = [] \<and>
   gl (snd (main n env)) = context0 env \<and>
   (init_ok env \<and> window_ptr env \<noteq> nullptr \<longrightarrow>
      GlutDisplayFunc Display \<in> set (calls (snd (main n env)))) \<and>
   display_func (snd (main n env)) = None \<and>
   filter gl_call (calls (snd (main_from_loop n env window w))) = filter gl_call (calls w) \<and>
   gl (snd (main_from_loop n env window w)) = gl w \<and>
   display_func (snd (main_from_loop n env window w)) = display_func w \<and>
   length (filter gl_call (calls (display w))) = length (filter gl_call (calls w)) + 9"
proof (intro conjI impI)
  have "set (take j (calls (snd (main n env)))) \<subseteq> set (calls (snd (main n env)))"
    by (rule set_take_subset)
  then show "filter gl_call (take j (calls (snd (main n env)))) = []"
    using main_gl_calls [of n env] by (auto simp: filter_empty_conv)
  show "gl (snd (main n env)) = context0 env" by (rule main_gl)
  show "display_func (snd (main n env)) = None" by (rule main_display_func)
  show "filter gl_call (calls (snd (main_from_loop n env window w))) = filter gl_call (calls w)"
    by (rule from_loop_gl_calls)
  show "gl (snd (main_from_loop n env window w)) = gl w"
    using from_loop_gl [of n env window w] by simp
  show "display_func (snd (main_from_loop n env window w)) = display_func w"
    using from_loop_gl [of n env window w] by simp
  show "length (filter gl_call (calls (display w))) = length (filter gl_call (calls w)) + 9"
    by (simp add: display_calls)
next
  assume "init_ok env \<and> window_ptr env \<noteq> nullptr"
  then show "GlutDisplayFunc Display \<in> set (calls (snd (main n env)))"
    by (simp add: main_calls)
qed

theorem display_never_runs_witness:
  "init_ok \<lparr>init_ok = True, window_ptr = 1, close_request = (\<lambda>k. k = 1),
            context0 = fresh_context 2 2\<rparr> \<and>
   window_ptr \<lparr>init_ok = True, window_ptr = 1, close_request = (\<lambda>k. k = 1),
            context0 = fresh_context 2 2\<rparr> \<noteq> nullptr \<and>
   GlutDisplayFunc Display \<in> set (calls (snd (main 3 \<lparr>init_ok = True, window_ptr = 1,
            close_request = (\<lambda>k. k = 1), context0 = fresh_context 2 2\<rparr>))) \<and>
   filter gl_call (take 5 (calls (snd (main 3 \<lparr>init_ok = True, window_ptr = 1,
            close_request = (\<lambda>k. k = 1), context0 = fresh_context 2 2\<rparr>)))) = [] \<and>
   gl (snd (main 3 \<lparr>init_ok = True, window_ptr = 1, close_request = (\<lambda>k. k = 1),
            context0 = fresh_context 2 2\<rparr>)) = fresh_context 2 2"
  using display_never_runs [of 5 3 "\<lparr>init_ok = True, window_ptr = 1,
            close_request = (\<lambda>k. k = (1::nat)), context0 = fresh_context 2 2\<rparr>"]
  by (simp add: nullptr_def)

end
